theory Spec2Isabelle
  imports Main
begin

section \<open>Microsoft To Do tree provider: data model\<close>

text \<open>
  The entities come from the service as JSON objects whose fields are all optional
  (\<^verbatim>\<open>TodoTaskList\<close>, \<^verbatim>\<open>TodoTask\<close>, \<^verbatim>\<open>DateTimeTimeZone\<close> and \<^verbatim>\<open>ItemBody\<close> of the Graph
  type declarations). An absent field is \<open>None\<close>. Field values are kept as the strings
  the service sends: the provider only ever compares \<open>status\<close> with \<^verbatim>\<open>'completed'\<close> and
  \<open>importance\<close> with \<^verbatim>\<open>'high'\<close>. A string is a list of characters; \<open>length\<close> stands for
  the \<^verbatim>\<open>.length\<close> of the source.
\<close>

record DateTimeTimeZone =
  dateTime :: "string option"
  timeZone :: "string option"

record ItemBody =
  content :: "string option"
  contentType :: "string option"

record TodoTaskList =
  list_id :: "string option"
  displayName :: "string option"

record TodoTask =
  task_id :: "string option"
  title :: "string option"
  status :: "string option"
  importance :: "string option"
  dueDateTime :: "DateTimeTimeZone option"
  body :: "ItemBody option"
  reminderDateTime :: "DateTimeTimeZone option"

text \<open>The nodes of the tree. The \<^verbatim>\<open>nodeType\<close> tag of the source is the constructor.\<close>

record ListNode =
  list_entity :: TodoTaskList

datatype TaskStatusType = completed | inProgress

record TaskNode =
  entity :: TodoTask
  parent :: ListNode

text \<open>The client object that \<^verbatim>\<open>clientFactory.getClient()\<close> resolves to: an opaque handle.\<close>

datatype client = Client nat

text \<open>
  The only functions ever stored in a status node are \<^verbatim>\<open>() => getTasks(false)\<close> and
  \<^verbatim>\<open>() => getTasks(true)\<close>, closed over the \<^verbatim>\<open>client\<close> and the \<^verbatim>\<open>element\<close> of the
  \<^verbatim>\<open>getChildren\<close> call that built them. The closure is kept as that data.
\<close>

datatype closure = GetTasks client ListNode bool

datatype ToDoEntity =
    TaskN TaskNode
  | StatusN TaskStatusType closure
  | ListN ListNode
  | CreateListN

fun statusType :: "ToDoEntity \<Rightarrow> TaskStatusType option" where
  "statusType (StatusN st c) = Some st"
| "statusType _ = None"

text \<open>The string value of the enum \<^verbatim>\<open>TaskStatusType\<close>.\<close>

fun statusTypeValue :: "TaskStatusType \<Rightarrow> string" where
  "statusTypeValue completed = ''Completed''"
| "statusTypeValue inProgress = ''In Progress''"

datatype error = TypeError | TransportError

subsection \<open>JavaScript values\<close>

text \<open>\<^verbatim>\<open>x || ""\<close> on an optional string.\<close>

fun orEmpty :: "string option \<Rightarrow> string" where
  "orEmpty None = []"
| "orEmpty (Some s) = s"

text \<open>Truthiness of an optional string: absent and the empty string are falsy.\<close>

fun truthy :: "string option \<Rightarrow> bool" where
  "truthy None = False"
| "truthy (Some s) = (s \<noteq> [])"

text \<open>\<^verbatim>\<open>${x}\<close> in a template literal, and the conversion of a value assigned to a DOM string
  attribute: an absent value becomes the text \<^verbatim>\<open>undefined\<close>.\<close>

fun interp :: "string option \<Rightarrow> string" where
  "interp None = ''undefined''"
| "interp (Some s) = s"

definition quote :: char where
  "quote = CHR 0x27"

definition newline :: char where
  "newline = CHR 0x0A"

section \<open>The gateway\<close>

text \<open>
  The client factory is a collaborator of the provider: \<open>getClient\<close> is what
  \<^verbatim>\<open>clientFactory.getClient()\<close> resolves to (nothing when no client is available), and
  \<^verbatim>\<open>clientFactory.getAll(client, path)\<close> either resolves to the entities of the
  collection or rejects. The source calls the one generic \<^verbatim>\<open>getAll\<close> at two entity types.
\<close>

record gateway =
  getClient :: "client option"
  getAllLists :: "client \<Rightarrow> string \<Rightarrow> error + TodoTaskList list"
  getAllTasks :: "client \<Rightarrow> string \<Rightarrow> error + TodoTask list"

text \<open>What a call of the provider asked of the client factory, in order.\<close>

datatype call = GetClient | GetAll client string

fun fetchPaths :: "call list \<Rightarrow> string list" where
  "fetchPaths [] = []"
| "fetchPaths (GetClient # cs) = fetchPaths cs"
| "fetchPaths (GetAll c p # cs) = p # fetchPaths cs"

section \<open>Tree materializer\<close>

definition tasksPath :: "ListNode \<Rightarrow> string \<Rightarrow> string" where
  "tasksPath element comparison =
     ''/me/todo/lists/'' @ interp (list_id (list_entity element)) @
     ''/tasks?$filter= status '' @ comparison @ '' '' @ [quote] @ ''completed'' @ [quote]"

text \<open>The local function \<^verbatim>\<open>getTasks\<close> of \<^verbatim>\<open>getChildren\<close>, with what it closes over.\<close>

definition getTasks ::
  "gateway \<Rightarrow> client \<Rightarrow> ListNode \<Rightarrow> bool \<Rightarrow> (error + TaskNode list) \<times> call list" where
  "getTasks gw client element getCompleted =
     (let comparison = (if getCompleted then ''eq'' else ''ne'');
          path = tasksPath element comparison
      in case getAllTasks gw client path of
           Inl e \<Rightarrow> (Inl e, [GetAll client path])
         | Inr tasks \<Rightarrow>
             (Inr (map (\<lambda>entity. \<lparr>entity = entity, parent = element\<rparr>) tasks),
              [GetAll client path]))"

fun runClosure :: "gateway \<Rightarrow> closure \<Rightarrow> (error + TaskNode list) \<times> call list" where
  "runClosure gw (GetTasks client element getCompleted) = getTasks gw client element getCompleted"

text \<open>
  \<^verbatim>\<open>getChildren(element?)\<close>. The result is the value the promise settles with
  (\<open>Inl\<close>: rejected; \<open>Inr None\<close>: resolved with \<^verbatim>\<open>undefined\<close>), with the calls made.
\<close>

fun getChildren ::
  "gateway \<Rightarrow> ToDoEntity option \<Rightarrow> (error + ToDoEntity list option) \<times> call list" where
  "getChildren gw element =
     (case getClient gw of
        None \<Rightarrow> (Inr None, [GetClient])
      | Some client \<Rightarrow>
          (case element of
             None \<Rightarrow>
               (case getAllLists gw client ''/me/todo/lists'' of
                  Inl e \<Rightarrow> (Inl e, [GetClient, GetAll client ''/me/todo/lists''])
                | Inr taskLists \<Rightarrow>
                    (Inr (Some (map (\<lambda>entity. ListN \<lparr>list_entity = entity\<rparr>) taskLists
                                @ [CreateListN])),
                     [GetClient, GetAll client ''/me/todo/lists'']))
           | Some (ListN l) \<Rightarrow>
               (Inr (Some [StatusN inProgress (GetTasks client l False),
                           StatusN completed (GetTasks client l True)]),
                [GetClient])
           | Some (StatusN st getCh) \<Rightarrow>
               (case runClosure gw getCh of
                  (Inl e, cs) \<Rightarrow> (Inl e, GetClient # cs)
                | (Inr tasks, cs) \<Rightarrow> (Inr (Some (map TaskN tasks)), GetClient # cs))
           | Some _ \<Rightarrow> (Inr None, [GetClient])))"

subsection \<open>Tree items\<close>

datatype TreeItemCollapsibleState = NoneState | Collapsed | Expanded

record TreeItemLabel =
  label :: string
  highlights :: "(nat \<times> nat) list"

datatype TreeItemLabelOrString = Str string | Lbl TreeItemLabel

record Command =
  command :: string
  cmd_title :: string

record TreeItem =
  item_label :: TreeItemLabelOrString
  collapsibleState :: TreeItemCollapsibleState
  item_command :: "Command option"
  contextValue :: "string option"
  tooltip :: "string option"

text \<open>\<^verbatim>\<open>new vscode.TreeItem(label, collapsibleState)\<close>; the state defaults to \<^verbatim>\<open>None\<close>.\<close>

definition newTreeItem :: "TreeItemLabelOrString \<Rightarrow> TreeItemCollapsibleState \<Rightarrow> TreeItem" where
  "newTreeItem l c =
     \<lparr>item_label = l, collapsibleState = c, item_command = None,
      contextValue = None, tooltip = None\<rparr>"

text \<open>The text shown for a label, whichever form it has.\<close>

fun labelText :: "TreeItemLabelOrString \<Rightarrow> string" where
  "labelText (Str s) = s"
| "labelText (Lbl l) = label l"

fun labelHighlights :: "TreeItemLabelOrString \<Rightarrow> (nat \<times> nat) list" where
  "labelHighlights (Str s) = []"
| "labelHighlights (Lbl l) = highlights l"

text \<open>\<^verbatim>\<open>dueDateTime?.dateTime\<close> and \<^verbatim>\<open>body?.content\<close>.\<close>

definition dueDate :: "TodoTask \<Rightarrow> string option" where
  "dueDate t = (case dueDateTime t of None \<Rightarrow> None | Some d \<Rightarrow> dateTime d)"

definition bodyContent :: "TodoTask \<Rightarrow> string option" where
  "bodyContent t = (case body t of None \<Rightarrow> None | Some b \<Rightarrow> content b)"

text \<open>
  \<^verbatim>\<open>getTreeItem(element)\<close>. The parameter \<open>toLocaleDateString\<close> stands for
  \<^verbatim>\<open>new Date(s).toLocaleDateString()\<close> of the host, which depends on its locale.
\<close>

fun getTreeItem :: "(string \<Rightarrow> string) \<Rightarrow> ToDoEntity \<Rightarrow> TreeItem" where
  "getTreeItem toLocaleDateString CreateListN =
     (newTreeItem (Str ''Create a new list...'') NoneState)
       \<lparr>item_command := Some \<lparr>command = ''microsoft-todo-unoffcial.createList'',
                              cmd_title = ''Create a new list...''\<rparr>\<rparr>"
| "getTreeItem toLocaleDateString (ListN element) =
     (newTreeItem (Str (orEmpty (displayName (list_entity element)))) Collapsed)
       \<lparr>contextValue := Some ''list''\<rparr>"
| "getTreeItem toLocaleDateString (TaskN element) =
     (let label0 = orEmpty (title (entity element));
          tooltip0 = ''*'' @ label0 @ ''*'';
          (label1, highlights1) =
            (if truthy (dueDate (entity element)) then
               (let dueStr = '' DUE '' @ toLocaleDateString (orEmpty (dueDate (entity element))) @ '' '';
                    label' = label0 @ ''  ''
                in (label' @ dueStr, [(length label', length label' + length dueStr)]))
             else (label0, []));
          tooltip1 =
            (if truthy (bodyContent (entity element))
             then tooltip0 @ [newline, newline] @ orEmpty (bodyContent (entity element))
             else tooltip0);
          status' = (if status (entity element) = Some ''completed''
                     then ''completed'' else ''notcompleted'');
          importance' = (if importance (entity element) = Some ''high''
                         then ''starred'' else ''notstarred'')
      in (newTreeItem (Lbl \<lparr>label = label1, highlights = highlights1\<rparr>) NoneState)
           \<lparr>contextValue := Some (''task-'' @ status' @ '' task-'' @ importance'),
            tooltip := Some tooltip1\<rparr>)"
| "getTreeItem toLocaleDateString (StatusN st getCh) =
     (let collapse = (if st = completed then Collapsed else Expanded);
          statusLabel = '' '' @ statusTypeValue st @ '' ''
      in newTreeItem (Lbl \<lparr>label = statusLabel, highlights = [(0, length statusLabel)]\<rparr>) collapse)"

section \<open>Mutation coordinator\<close>

text \<open>The object literal handed to \<^verbatim>\<open>patch\<close>: \<^verbatim>\<open>{status: v}\<close> or \<^verbatim>\<open>{importance: v}\<close>.\<close>

datatype PatchBody = StatusPatch string | ImportancePatch string

text \<open>
  What a batch does, in order: a patch request handed to the client, or
  \<^verbatim>\<open>didChangeTreeData.fire(x)\<close> (\<open>Fire None\<close> would be the signal for the whole tree).
\<close>

datatype event = Patch client string PatchBody | Fire "ToDoEntity option"

fun isPatch :: "event \<Rightarrow> bool" where
  "isPatch (Patch c p b) = True"
| "isPatch (Fire x) = False"

fun isFire :: "event \<Rightarrow> bool" where
  "isFire (Patch c p b) = False"
| "isFire (Fire x) = True"

datatype settlement = Fulfilled | Rejected

datatype promiseState = PendingP | ResolvedP | RejectedP

definition taskPath :: "TaskNode \<Rightarrow> string" where
  "taskPath n =
     ''/me/todo/lists/'' @ interp (list_id (list_entity (parent n))) @
     ''/tasks/'' @ interp (task_id (entity n))"

text \<open>
  The fields sent by \<^verbatim>\<open>changeCompletedState\<close> and by \<^verbatim>\<open>changeImportanceState\<close> for a node,
  computed from the snapshot the node holds.
\<close>

definition statusPatch :: "TaskNode \<Rightarrow> PatchBody" where
  "statusPatch n =
     StatusPatch (if status (entity n) = Some ''completed'' then ''notStarted'' else ''completed'')"

definition importancePatch :: "TaskNode \<Rightarrow> PatchBody" where
  "importancePatch n =
     ImportancePatch (if importance (entity n) = Some ''high'' then ''normal'' else ''high'')"

text \<open>
  \<^verbatim>\<open>nodes.map(async n => { await client!.api(path).patch(body); fire(n.parent); })\<close>
  followed by \<^verbatim>\<open>await Promise.all(promises)\<close>, on the single thread of the host.

  Each call of the arrow function runs at once up to its \<^verbatim>\<open>await\<close>: with a client, the
  patch request of every node is handed over, in the order of \<open>nodes\<close>, before any
  response is looked at, and the call is then suspended (\<open>inflight\<close>, under its position
  in \<open>nodes\<close>); with no client, \<^verbatim>\<open>client!.api\<close> throws a TypeError inside the arrow
  function, no request is made and its promise is rejected at once.
\<close>

record batch =
  events :: "event list"
  inflight :: "(nat \<times> TaskNode) list"
  fulfilled :: "nat list"
  rejected :: "nat list"

definition startBatch :: "client option \<Rightarrow> (TaskNode \<Rightarrow> PatchBody) \<Rightarrow> TaskNode list \<Rightarrow> batch" where
  "startBatch cl patchBody nodes =
     (case cl of
        None \<Rightarrow>
          \<lparr>events = [], inflight = [], fulfilled = [], rejected = [0..<length nodes]\<rparr>
      | Some c \<Rightarrow>
          \<lparr>events = map (\<lambda>n. Patch c (taskPath n) (patchBody n)) nodes,
           inflight = enumerate 0 nodes, fulfilled = [], rejected = []\<rparr>)"

text \<open>
  The response to the request at position \<open>i\<close> arrives. A fulfilled patch resumes the
  arrow function, which fires the signal for \<^verbatim>\<open>n.parent\<close>; a rejected patch rejects the
  promise of that call alone. The other suspended calls are not touched: \<^verbatim>\<open>Promise.all\<close>
  cancels nothing. A response for a position that is not in flight is ignored.
\<close>

fun settle :: "batch \<Rightarrow> nat \<times> settlement \<Rightarrow> batch" where
  "settle b (i, s) =
     (case map_of (inflight b) i of
        None \<Rightarrow> b
      | Some n \<Rightarrow>
          (case s of
             Fulfilled \<Rightarrow>
               b\<lparr>events := events b @ [Fire (Some (ListN (parent n)))],
                 inflight := filter (\<lambda>jn. fst jn \<noteq> i) (inflight b),
                 fulfilled := fulfilled b @ [i]\<rparr>
           | Rejected \<Rightarrow>
               b\<lparr>inflight := filter (\<lambda>jn. fst jn \<noteq> i) (inflight b),
                 rejected := rejected b @ [i]\<rparr>))"

text \<open>The promise of \<^verbatim>\<open>Promise.all\<close> over the \<open>n\<close> calls, which the method awaits.\<close>

definition allState :: "nat \<Rightarrow> batch \<Rightarrow> promiseState" where
  "allState n b =
     (if rejected b \<noteq> [] then RejectedP
      else if length (fulfilled b) = n then ResolvedP
      else PendingP)"

text \<open>
  The two methods. The responses of the service are the input \<open>sched\<close>: which request
  settles next, and how. The result is the batch after these responses.
\<close>

definition changeCompletedState ::
  "gateway \<Rightarrow> TaskNode list \<Rightarrow> (nat \<times> settlement) list \<Rightarrow> batch" where
  "changeCompletedState gw nodes sched =
     foldl settle (startBatch (getClient gw) statusPatch nodes) sched"

definition changeImportanceState ::
  "gateway \<Rightarrow> TaskNode list \<Rightarrow> (nat \<times> settlement) list \<Rightarrow> batch" where
  "changeImportanceState gw nodes sched =
     foldl settle (startBatch (getClient gw) importancePatch nodes) sched"

text \<open>The positions whose patch was fulfilled, in the order of the responses.\<close>

definition succeeded :: "(nat \<times> settlement) list \<Rightarrow> nat list" where
  "succeeded sched = map fst (filter (\<lambda>js. snd js = Fulfilled) sched)"

text \<open>
  The service after a patch: the snapshot fetched next has the patched field, and
  nothing else of the task has changed.
\<close>

fun applyPatch :: "PatchBody \<Rightarrow> TodoTask \<Rightarrow> TodoTask" where
  "applyPatch (StatusPatch v) t = t\<lparr>status := Some v\<rparr>"
| "applyPatch (ImportancePatch v) t = t\<lparr>importance := Some v\<rparr>"

subsection \<open>Commands\<close>

text \<open>
  The four commands registered by the constructor on task nodes
  (\<^verbatim>\<open>microsoft-todo-unoffcial.complete\<close> and so on). Each handler is
  \<^verbatim>\<open>(node, nodes) => nodes ? f(nodes) : f([node])\<close>; an array is truthy even when empty.
\<close>

datatype commandId = complete | uncomplete | star | unstar

fun executeCommand ::
  "gateway \<Rightarrow> commandId \<Rightarrow> TaskNode \<Rightarrow> TaskNode list option \<Rightarrow> (nat \<times> settlement) list \<Rightarrow> batch" where
  "executeCommand gw complete node nodes sched =
     (case nodes of Some ns \<Rightarrow> changeCompletedState gw ns sched
                  | None \<Rightarrow> changeCompletedState gw [node] sched)"
| "executeCommand gw uncomplete node nodes sched =
     (case nodes of Some ns \<Rightarrow> changeCompletedState gw ns sched
                  | None \<Rightarrow> changeCompletedState gw [node] sched)"
| "executeCommand gw star node nodes sched =
     (case nodes of Some ns \<Rightarrow> changeImportanceState gw ns sched
                  | None \<Rightarrow> changeImportanceState gw [node] sched)"
| "executeCommand gw unstar node nodes sched =
     (case nodes of Some ns \<Rightarrow> changeImportanceState gw ns sched
                  | None \<Rightarrow> changeImportanceState gw [node] sched)"

section \<open>Task details view\<close>

text \<open>
  The state that \<^verbatim>\<open>changeTaskNode\<close> of the webview script writes: the state kept by
  \<^verbatim>\<open>vscode.setState\<close>, \<^verbatim>\<open>currentNode\<close>, and the attributes of the elements of the page.
\<close>

record webview =
  vscodeState :: "TaskNode option"
  currentNode :: "TaskNode option"
  title_value :: string
  body_value :: string
  updateButton_hidden :: bool
  cancelButton_hidden :: bool
  remindDate_hidden :: bool
  remindDate_innerHTML :: string

text \<open>
  \<^verbatim>\<open>changeTaskNode(taskNode)\<close>. Reading \<^verbatim>\<open>.content\<close> of an absent \<^verbatim>\<open>body\<close> throws a
  TypeError; the assignments made before it stay. The result is the error thrown, if
  any, and the state left behind. \<open>toLocaleString\<close> stands for
  \<^verbatim>\<open>new Date(s).toLocaleString()\<close> of the host.
\<close>

definition changeTaskNode ::
  "(string option \<Rightarrow> string) \<Rightarrow> webview \<Rightarrow> TaskNode \<Rightarrow> error option \<times> webview" where
  "changeTaskNode toLocaleString w taskNode =
     (let w1 = w\<lparr>vscodeState := Some taskNode, currentNode := Some taskNode,
                 title_value := interp (title (entity taskNode))\<rparr>
      in case body (entity taskNode) of
           None \<Rightarrow> (Some TypeError, w1)
         | Some b \<Rightarrow>
             (let w2 = w1\<lparr>body_value := interp (content b),
                          updateButton_hidden := True, cancelButton_hidden := True\<rparr>
              in case reminderDateTime (entity taskNode) of
                   Some r \<Rightarrow>
                     (None, w2\<lparr>remindDate_hidden := False,
                               remindDate_innerHTML :=
                                 ''Reminder set at '' @ toLocaleString (dateTime r)\<rparr>)
                 | None \<Rightarrow> (None, w2\<lparr>remindDate_hidden := True\<rparr>)))"

section \<open>Auxiliary definitions\<close>

text \<open>The nodes a call of \<open>getChildren\<close> resolved with; none when it resolved with nothing.\<close>

fun childrenOf :: "error + ToDoEntity list option \<Rightarrow> ToDoEntity list" where
  "childrenOf (Inr (Some ns)) = ns"
| "childrenOf _ = []"

text \<open>What one response adds to the log of a batch, and to its fulfilled calls.\<close>

definition response :: "batch \<Rightarrow> nat \<times> settlement \<Rightarrow> event list" where
  "response b js =
     (case map_of (inflight b) (fst js) of
        None \<Rightarrow> []
      | Some n \<Rightarrow> (if snd js = Fulfilled then [Fire (Some (ListN (parent n)))] else []))"

definition resolution :: "batch \<Rightarrow> nat \<times> settlement \<Rightarrow> nat list" where
  "resolution b js =
     (case map_of (inflight b) (fst js) of
        None \<Rightarrow> []
      | Some n \<Rightarrow> (if snd js = Fulfilled then [fst js] else []))"

subsection \<open>Example data\<close>

text \<open>
  The list ``Groceries'' (id \<open>L1\<close>) with the tasks \<open>T1\<close> (not started, normal importance, no
  due date, no body, no reminder) and \<open>T2\<close> (completed, starred, due, with a body); a
  second list \<open>L2\<close> with a task \<open>T3\<close>; a gateway with a client and one without.
\<close>

definition ex_list1 :: TodoTaskList where
  "ex_list1 = \<lparr>list_id = Some ''L1'', displayName = Some ''Groceries''\<rparr>"

definition ex_list2 :: TodoTaskList where
  "ex_list2 = \<lparr>list_id = Some ''L2'', displayName = None\<rparr>"

definition ex_listNode :: ListNode where
  "ex_listNode = \<lparr>list_entity = ex_list1\<rparr>"

definition ex_task1 :: TodoTask where
  "ex_task1 =
     \<lparr>task_id = Some ''T1'', title = Some ''Milk'', status = Some ''notStarted'',
      importance = Some ''normal'', dueDateTime = None, body = None, reminderDateTime = None\<rparr>"

definition ex_task2 :: TodoTask where
  "ex_task2 =
     \<lparr>task_id = Some ''T2'', title = Some ''Eggs'', status = Some ''completed'',
      importance = Some ''high'',
      dueDateTime = Some \<lparr>dateTime = Some ''2021-03-01T00:00:00.0000000'',
                           timeZone = Some ''UTC''\<rparr>,
      body = Some \<lparr>content = Some ''a dozen'', contentType = Some ''text''\<rparr>,
      reminderDateTime = None\<rparr>"

definition ex_node1 :: TaskNode where
  "ex_node1 = \<lparr>entity = ex_task1, parent = ex_listNode\<rparr>"

definition ex_node2 :: TaskNode where
  "ex_node2 = \<lparr>entity = ex_task2, parent = ex_listNode\<rparr>"

definition ex_node3 :: TaskNode where
  "ex_node3 = \<lparr>entity = ex_task1\<lparr>task_id := Some ''T3''\<rparr>, parent = \<lparr>list_entity = ex_list2\<rparr>\<rparr>"

text \<open>A task that the service reports as in progress, a status the provider shows in the
  \<open>inProgress\<close> group with every other status that is not \<^verbatim>\<open>completed\<close>.\<close>

definition ex_node4 :: TaskNode where
  "ex_node4 =
     \<lparr>entity = ex_task1\<lparr>task_id := Some ''T4'', status := Some ''inProgress''\<rparr>,
      parent = ex_listNode\<rparr>"

definition ex_gw :: gateway where
  "ex_gw =
     \<lparr>getClient = Some (Client 0),
      getAllLists = (\<lambda>c p. Inr [ex_list1, ex_list2]),
      getAllTasks = (\<lambda>c p. Inr [ex_task1])\<rparr>"

definition ex_gw_off :: gateway where
  "ex_gw_off =
     \<lparr>getClient = None,
      getAllLists = (\<lambda>c p. Inl TransportError),
      getAllTasks = (\<lambda>c p. Inl TransportError)\<rparr>"

definition ex_webview :: webview where
  "ex_webview =
     \<lparr>vscodeState = None, currentNode = None, title_value = [], body_value = [],
      updateButton_hidden = False, cancelButton_hidden = False, remindDate_hidden = False,
      remindDate_innerHTML = []\<rparr>"

lemmas ex_defs = ex_list1_def ex_list2_def ex_listNode_def ex_task1_def ex_task2_def
  ex_node1_def ex_node2_def ex_node3_def ex_gw_def ex_gw_off_def ex_webview_def

section \<open>Properties of the tree materializer\<close>

lemma getTasks_calls:
  "snd (getTasks gw c l b) = [GetAll c (tasksPath l (if b then ''eq'' else ''ne''))]"
  by (simp add: getTasks_def Let_def split: sum.splits)

lemma getChildren_status_calls:
  "snd (getChildren gw (Some (StatusN st (GetTasks c l b)))) =
     (if getClient gw = None then [GetClient]
      else [GetClient, GetAll c (tasksPath l (if b then ''eq'' else ''ne''))])"
  using getTasks_calls [of gw c l b]
  by (cases "getTasks gw c l b") (auto split: option.splits sum.splits)

lemma getChildren_terminal:
  "fst (getChildren gw (Some (TaskN n))) = Inr None"
  "fst (getChildren gw (Some CreateListN)) = Inr None"
  by (simp_all split: option.splits)

text \<open>
  Claim C1. When a client is available and the service answers the request for
  \<^verbatim>\<open>/me/todo/lists\<close> with \<open>N\<close> task lists, expanding the root gives \<open>N + 1\<close> nodes: the
  list nodes in the order of the service, then the one create-list node, which occurs
  nowhere else.
\<close>

theorem getChildren_root:
  assumes "getClient gw = Some c"
    and "getAllLists gw c ''/me/todo/lists'' = Inr taskLists"
  shows "fst (getChildren gw None) =
           Inr (Some (map (\<lambda>e. ListN \<lparr>list_entity = e\<rparr>) taskLists @ [CreateListN]))
       \<and> length (childrenOf (fst (getChildren gw None))) = length taskLists + 1
       \<and> last (childrenOf (fst (getChildren gw None))) = CreateListN
       \<and> count_list (childrenOf (fst (getChildren gw None))) CreateListN = 1"
proof -
  let ?ns = "map (\<lambda>e. ListN \<lparr>list_entity = e\<rparr>) taskLists"
  have r: "fst (getChildren gw None) = Inr (Some (?ns @ [CreateListN]))"
    using assms by simp
  have "count_list ?ns CreateListN = 0"
    by (induction taskLists) simp_all
  then have "count_list (?ns @ [CreateListN]) CreateListN = 1"
    by simp
  with r show ?thesis
    by (simp del: getChildren.simps)
qed

theorem getChildren_root_witness:
  "fst (getChildren ex_gw None) =
     Inr (Some [ListN \<lparr>list_entity = ex_list1\<rparr>, ListN \<lparr>list_entity = ex_list2\<rparr>, CreateListN])
 \<and> length (childrenOf (fst (getChildren ex_gw None))) = 3
 \<and> last (childrenOf (fst (getChildren ex_gw None))) = CreateListN
 \<and> count_list (childrenOf (fst (getChildren ex_gw None))) CreateListN = 1"
  using getChildren_root [of ex_gw "Client 0" "[ex_list1, ex_list2]"]
  by (simp add: ex_gw_def)

theorem getChildren_list_counterexample:
  "fst (getChildren ex_gw_off (Some (ListN ex_listNode))) = Inr None
 \<and> map statusType (childrenOf (fst (getChildren ex_gw_off (Some (ListN ex_listNode)))))
     \<noteq> [Some inProgress, Some completed]"
  by (simp add: ex_gw_off_def)

text \<open>
  Claim C2, amended. When a client is available, expanding a list node gives exactly
  two status nodes, \<open>inProgress\<close> then \<open>completed\<close>, each holding the closure that will
  fetch; the only call of the expansion is the one for the client. With or without a
  client (\<open>gw0\<close>), the expansion fetches nothing. Two expansions of the same list, each
  with a client, give the same order of status types.
\<close>

theorem getChildren_list:
  assumes "getClient gw = Some c" and "getClient gw' = Some c'"
  shows "fst (getChildren gw (Some (ListN l))) =
           Inr (Some [StatusN inProgress (GetTasks c l False),
                      StatusN completed (GetTasks c l True)])
       \<and> snd (getChildren gw (Some (ListN l))) = [GetClient]
       \<and> fetchPaths (snd (getChildren gw0 (Some (ListN l)))) = []
       \<and> map statusType (childrenOf (fst (getChildren gw (Some (ListN l))))) =
           [Some inProgress, Some completed]
       \<and> map statusType (childrenOf (fst (getChildren gw' (Some (ListN l))))) =
           map statusType (childrenOf (fst (getChildren gw (Some (ListN l)))))"
  using assms by (simp split: option.splits)

theorem getChildren_list_witness:
  "fst (getChildren ex_gw (Some (ListN ex_listNode))) =
     Inr (Some [StatusN inProgress (GetTasks (Client 0) ex_listNode False),
                StatusN completed (GetTasks (Client 0) ex_listNode True)])
 \<and> snd (getChildren ex_gw (Some (ListN ex_listNode))) = [GetClient]
 \<and> fetchPaths (snd (getChildren ex_gw_off (Some (ListN ex_listNode)))) = []"
  using getChildren_list [of ex_gw "Client 0" ex_gw "Client 0" ex_listNode ex_gw_off]
  by (simp add: ex_gw_def)

text \<open>
  Claim C3. The two status nodes of a list, when expanded, ask the gateway for one
  path each, built from the id of that list: the \<open>inProgress\<close> node for the tasks with
  \<^verbatim>\<open>status ne 'completed'\<close>, the \<open>completed\<close> node for those with
  \<^verbatim>\<open>status eq 'completed'\<close>. Without a client at that moment they ask for nothing.
\<close>

theorem getChildren_status_filter:
  assumes "getClient gw = Some c"
  shows "\<exists>g1 g2.
           fst (getChildren gw (Some (ListN l))) = Inr (Some [g1, g2])
         \<and> statusType g1 = Some inProgress
         \<and> statusType g2 = Some completed
         \<and> fetchPaths (snd (getChildren gw' (Some g1))) =
             (if getClient gw' = None then []
              else [''/me/todo/lists/'' @ interp (list_id (list_entity l)) @
                    ''/tasks?$filter= status ne '' @ [quote] @ ''completed'' @ [quote]])
         \<and> fetchPaths (snd (getChildren gw' (Some g2))) =
             (if getClient gw' = None then []
              else [''/me/todo/lists/'' @ interp (list_id (list_entity l)) @
                    ''/tasks?$filter= status eq '' @ [quote] @ ''completed'' @ [quote]])"
proof -
  have "fst (getChildren gw (Some (ListN l))) =
      Inr (Some [StatusN inProgress (GetTasks c l False), StatusN completed (GetTasks c l True)])"
    using assms by simp
  moreover have
    "fetchPaths (snd (getChildren gw' (Some (StatusN inProgress (GetTasks c l False))))) =
      (if getClient gw' = None then [] else [tasksPath l ''ne''])"
    unfolding getChildren_status_calls by simp
  moreover have
    "fetchPaths (snd (getChildren gw' (Some (StatusN completed (GetTasks c l True))))) =
      (if getClient gw' = None then [] else [tasksPath l ''eq''])"
    unfolding getChildren_status_calls by simp
  ultimately show ?thesis
    by (simp add: tasksPath_def del: getChildren.simps)
qed

theorem getChildren_status_filter_witness:
  "\<exists>g1 g2.
     fst (getChildren ex_gw (Some (ListN ex_listNode))) = Inr (Some [g1, g2])
   \<and> statusType g1 = Some inProgress
   \<and> statusType g2 = Some completed
   \<and> fetchPaths (snd (getChildren ex_gw (Some g1))) =
       [''/me/todo/lists/L1/tasks?$filter= status ne '' @ [quote] @ ''completed'' @ [quote]]
   \<and> fetchPaths (snd (getChildren ex_gw (Some g2))) =
       [''/me/todo/lists/L1/tasks?$filter= status eq '' @ [quote] @ ''completed'' @ [quote]]"
  using getChildren_status_filter [of ex_gw "Client 0" ex_listNode ex_gw]
  by (simp add: ex_gw_def ex_listNode_def ex_list1_def)

text \<open>
  Claim C4. Without a client, every expansion (of the root or of any node) resolves
  with nothing: it neither rejects nor asks the gateway for anything.
\<close>

theorem getChildren_no_client:
  assumes "getClient gw = None"
  shows "getChildren gw element = (Inr None, [GetClient])"
  using assms by simp

theorem getChildren_no_client_witness:
  "getChildren ex_gw_off None = (Inr None, [GetClient])
 \<and> getChildren ex_gw_off (Some (ListN ex_listNode)) = (Inr None, [GetClient])"
  using getChildren_no_client [of ex_gw_off None]
    getChildren_no_client [of ex_gw_off "Some (ListN ex_listNode)"]
  by (simp add: ex_gw_off_def)

section \<open>Properties of the mutation coordinator\<close>

lemma map_of_enumerate_nth:
  "map_of (enumerate k xs) i = (if k \<le> i \<and> i < k + length xs then Some (xs ! (i - k)) else None)"
proof (induction xs arbitrary: k)
  case Nil
  then show ?case by simp
next
  case (Cons x xs)
  show ?case
  proof (cases "i = k")
    case True
    then show ?thesis by simp
  next
    case False
    then show ?thesis using Cons [of "Suc k"] by (auto simp: nth_Cons')
  qed
qed

lemma map_of_filter_other:
  "j \<noteq> i \<Longrightarrow> map_of (filter (\<lambda>jn. fst jn \<noteq> i) xs) j = map_of xs j"
  by (induction xs) auto

lemma settle_inflight_other:
  "j \<noteq> i \<Longrightarrow> map_of (inflight (settle b (i, s))) j = map_of (inflight b) j"
  by (simp add: map_of_filter_other split: option.splits settlement.splits)

lemma settle_events: "events (settle b js) = events b @ response b js"
  by (cases js) (simp add: response_def split: option.splits settlement.splits)

lemma response_other:
  "fst js \<noteq> i \<Longrightarrow> response (settle b (i, s)) js = response b js"
  by (simp add: response_def settle_inflight_other del: settle.simps)

lemma foldl_settle_events:
  "distinct (map fst sched) \<Longrightarrow>
   events (foldl settle b sched) = events b @ concat (map (response b) sched)"
proof (induction sched arbitrary: b)
  case Nil
  then show ?case by simp
next
  case (Cons js sched)
  obtain i s where js: "js = (i, s)" by (cases js)
  from Cons.prems have d: "distinct (map fst sched)" and ni: "i \<notin> fst ` set sched"
    by (simp_all add: js)
  have "map (response (settle b (i, s))) sched = map (response b) sched"
  proof (rule map_cong [OF refl])
    fix x assume "x \<in> set sched"
    with ni have "fst x \<noteq> i" by auto
    then show "response (settle b (i, s)) x = response b x" by (rule response_other)
  qed
  with Cons.IH [OF d, of "settle b (i, s)"] show ?case
    by (simp add: js settle_events del: settle.simps)
qed


lemma response_startBatch:
  "i < length nodes \<Longrightarrow>
   response (startBatch (Some c) pb nodes) (i, s) =
     (if s = Fulfilled then [Fire (Some (ListN (parent (nodes ! i))))] else [])"
  by (simp add: response_def startBatch_def map_of_enumerate_nth)

lemma concat_response_startBatch:
  "\<forall>i \<in> fst ` set sched. i < length nodes \<Longrightarrow>
   concat (map (response (startBatch (Some c) pb nodes)) sched) =
     map (\<lambda>i. Fire (Some (ListN (parent (nodes ! i))))) (succeeded sched)"
proof (induction sched)
  case Nil
  then show ?case by (simp add: succeeded_def)
next
  case (Cons js sched)
  obtain i s where js: "js = (i, s)" by (cases js)
  with Cons.prems have "i < length nodes" by simp
  then have "response (startBatch (Some c) pb nodes) (i, s) =
      (if s = Fulfilled then [Fire (Some (ListN (parent (nodes ! i))))] else [])"
    by (rule response_startBatch)
  moreover have "concat (map (response (startBatch (Some c) pb nodes)) sched) =
      map (\<lambda>i. Fire (Some (ListN (parent (nodes ! i))))) (succeeded sched)"
    using Cons by simp
  ultimately show ?case by (simp add: js succeeded_def)
qed

lemma events_batch:
  assumes "distinct (map fst sched)" and "\<forall>i \<in> fst ` set sched. i < length nodes"
  shows "events (foldl settle (startBatch (Some c) pb nodes) sched) =
           map (\<lambda>n. Patch c (taskPath n) (pb n)) nodes @
           map (\<lambda>i. Fire (Some (ListN (parent (nodes ! i))))) (succeeded sched)"
proof -
  have "events (startBatch (Some c) pb nodes) = map (\<lambda>n. Patch c (taskPath n) (pb n)) nodes"
    by (simp add: startBatch_def)
  with foldl_settle_events [OF assms(1)] concat_response_startBatch [OF assms(2)]
  show ?thesis by simp
qed

lemma filter_isPatch:
  "filter isPatch (map (\<lambda>n. Patch c (f n) (g n)) xs @ map (\<lambda>i. Fire (h i)) ys) =
     map (\<lambda>n. Patch c (f n) (g n)) xs"
  by (simp add: filter_map comp_def)

lemma filter_isFire:
  "filter isFire (map (\<lambda>n. Patch c (f n) (g n)) xs @ map (\<lambda>i. Fire (h i)) ys) =
     map (\<lambda>i. Fire (h i)) ys"
  by (simp add: filter_map comp_def)

lemma events_no_client:
  "events (foldl settle (startBatch None pb nodes) sched) = []"
proof -
  have "foldl settle b sched = b" if "inflight b = []" for b
    using that by (induction sched arbitrary: b) auto
  then show ?thesis by (simp add: startBatch_def)
qed

lemma settle_fulfilled: "fulfilled (settle b js) = fulfilled b @ resolution b js"
  by (cases js) (simp add: resolution_def split: option.splits settlement.splits)

lemma resolution_other:
  "fst js \<noteq> i \<Longrightarrow> resolution (settle b (i, s)) js = resolution b js"
  by (simp add: resolution_def settle_inflight_other del: settle.simps)

lemma foldl_settle_fulfilled:
  "distinct (map fst sched) \<Longrightarrow>
   fulfilled (foldl settle b sched) = fulfilled b @ concat (map (resolution b) sched)"
proof (induction sched arbitrary: b)
  case Nil
  then show ?case by simp
next
  case (Cons js sched)
  obtain i s where js: "js = (i, s)" by (cases js)
  from Cons.prems have d: "distinct (map fst sched)" and ni: "i \<notin> fst ` set sched"
    by (simp_all add: js)
  have "map (resolution (settle b (i, s))) sched = map (resolution b) sched"
  proof (rule map_cong [OF refl])
    fix x assume "x \<in> set sched"
    with ni have "fst x \<noteq> i" by auto
    then show "resolution (settle b (i, s)) x = resolution b x" by (rule resolution_other)
  qed
  with Cons.IH [OF d, of "settle b (i, s)"] show ?case
    by (simp add: js settle_fulfilled del: settle.simps)
qed

lemma concat_resolution_startBatch:
  "\<forall>i \<in> fst ` set sched. i < length nodes \<Longrightarrow>
   concat (map (resolution (startBatch (Some c) pb nodes)) sched) = succeeded sched"
proof (induction sched)
  case Nil
  then show ?case by (simp add: succeeded_def)
next
  case (Cons js sched)
  obtain i s where js: "js = (i, s)" by (cases js)
  with Cons.prems have "i < length nodes" by simp
  then have "resolution (startBatch (Some c) pb nodes) (i, s) = (if s = Fulfilled then [i] else [])"
    by (simp add: resolution_def startBatch_def map_of_enumerate_nth)
  moreover have "concat (map (resolution (startBatch (Some c) pb nodes)) sched) = succeeded sched"
    using Cons by simp
  ultimately show ?case by (simp add: js succeeded_def)
qed

lemma fulfilled_batch:
  assumes "distinct (map fst sched)" and "\<forall>i \<in> fst ` set sched. i < length nodes"
  shows "fulfilled (foldl settle (startBatch (Some c) pb nodes) sched) = succeeded sched"
  using foldl_settle_fulfilled [OF assms(1), of "startBatch (Some c) pb nodes"]
    concat_resolution_startBatch [OF assms(2), of c pb]
  by (simp add: startBatch_def)

lemma settle_inflight:
  "inflight (settle b (i, s)) = filter (\<lambda>jn. fst jn \<noteq> i) (inflight b)"
proof (cases "map_of (inflight b) i")
  case None
  then have "i \<notin> fst ` set (inflight b)" by (simp add: map_of_eq_None_iff)
  then have "filter (\<lambda>jn. fst jn \<noteq> i) (inflight b) = inflight b"
    by (auto simp: filter_id_conv)
  with None show ?thesis by simp
next
  case (Some n)
  then show ?thesis by (simp split: settlement.splits)
qed

lemma foldl_settle_inflight:
  "inflight (foldl settle b sched) = filter (\<lambda>jn. fst jn \<notin> fst ` set sched) (inflight b)"
proof (induction sched arbitrary: b)
  case Nil
  then show ?case by simp
next
  case (Cons js sched)
  obtain i s where js: "js = (i, s)" by (cases js)
  have "inflight (foldl settle (settle b (i, s)) sched) =
      filter (\<lambda>jn. fst jn \<notin> fst ` set sched) (filter (\<lambda>jn. fst jn \<noteq> i) (inflight b))"
    unfolding Cons.IH settle_inflight ..
  then show ?case
    by (simp add: js del: settle.simps)
qed

lemma inflight_batch:
  assumes "{0..<length nodes} \<subseteq> fst ` set sched"
  shows "inflight (foldl settle (startBatch cl pb nodes) sched) = []"
proof -
  have "fst ` set (inflight (startBatch cl pb nodes)) \<subseteq> {0..<length nodes}"
    by (cases cl) (auto simp: startBatch_def in_set_enumerate_eq)
  with assms have "\<forall>jn \<in> set (inflight (startBatch cl pb nodes)). fst jn \<in> fst ` set sched"
    by blast
  then show ?thesis
    unfolding foldl_settle_inflight by (simp add: filter_empty_conv)
qed

lemma schedule_complete:
  assumes "sort (map fst sched) = [0..<n]"
  shows "distinct (map fst sched)" and "fst ` set sched = {0..<n}"
proof -
  have "distinct (sort (map fst sched))" unfolding assms by simp
  then show "distinct (map fst sched)" by simp
  have "set (sort (map fst sched)) = {0..<n}" unfolding assms by simp
  then show "fst ` set sched = {0..<n}" by simp
qed

text \<open>
  Claim C5. With a client, and responses that answer requests of the batch, at most
  once each: each method hands over exactly one patch request per task node, in the
  order of the batch, addressed \<^verbatim>\<open>/me/todo/lists/{parent list id}/tasks/{task id}\<close>,
  whose field is the opposite of the snapshot (\<^verbatim>\<open>notStarted\<close> for a completed task and
  \<^verbatim>\<open>completed\<close> otherwise; \<^verbatim>\<open>normal\<close> for a starred task and \<^verbatim>\<open>high\<close> otherwise); and the
  signals fired are exactly one per fulfilled patch, each for the parent list node of
  its task, never for the whole tree.
\<close>

theorem toggle_requests:
  assumes "getClient gw = Some c"
    and "distinct (map fst sched)"
    and "\<forall>i \<in> fst ` set sched. i < length nodes"
  shows "filter isPatch (events (changeCompletedState gw nodes sched)) =
           map (\<lambda>n. Patch c
                  (''/me/todo/lists/'' @ interp (list_id (list_entity (parent n))) @
                   ''/tasks/'' @ interp (task_id (entity n)))
                  (StatusPatch (if status (entity n) = Some ''completed''
                                then ''notStarted'' else ''completed''))) nodes
       \<and> filter isFire (events (changeCompletedState gw nodes sched)) =
           map (\<lambda>i. Fire (Some (ListN (parent (nodes ! i))))) (succeeded sched)
       \<and> filter isPatch (events (changeImportanceState gw nodes sched)) =
           map (\<lambda>n. Patch c
                  (''/me/todo/lists/'' @ interp (list_id (list_entity (parent n))) @
                   ''/tasks/'' @ interp (task_id (entity n)))
                  (ImportancePatch (if importance (entity n) = Some ''high''
                                    then ''normal'' else ''high''))) nodes
       \<and> filter isFire (events (changeImportanceState gw nodes sched)) =
           map (\<lambda>i. Fire (Some (ListN (parent (nodes ! i))))) (succeeded sched)"
proof -
  have e1: "events (changeCompletedState gw nodes sched) =
      map (\<lambda>n. Patch c (taskPath n) (statusPatch n)) nodes @
      map (\<lambda>i. Fire (Some (ListN (parent (nodes ! i))))) (succeeded sched)"
    unfolding changeCompletedState_def assms(1) by (rule events_batch [OF assms(2,3)])
  have e2: "events (changeImportanceState gw nodes sched) =
      map (\<lambda>n. Patch c (taskPath n) (importancePatch n)) nodes @
      map (\<lambda>i. Fire (Some (ListN (parent (nodes ! i))))) (succeeded sched)"
    unfolding changeImportanceState_def assms(1) by (rule events_batch [OF assms(2,3)])
  have p1: "filter isPatch (events (changeCompletedState gw nodes sched)) =
      map (\<lambda>n. Patch c (taskPath n) (statusPatch n)) nodes"
    unfolding e1 by (rule filter_isPatch)
  have f1: "filter isFire (events (changeCompletedState gw nodes sched)) =
      map (\<lambda>i. Fire (Some (ListN (parent (nodes ! i))))) (succeeded sched)"
    unfolding e1 by (rule filter_isFire)
  have p2: "filter isPatch (events (changeImportanceState gw nodes sched)) =
      map (\<lambda>n. Patch c (taskPath n) (importancePatch n)) nodes"
    unfolding e2 by (rule filter_isPatch)
  have f2: "filter isFire (events (changeImportanceState gw nodes sched)) =
      map (\<lambda>i. Fire (Some (ListN (parent (nodes ! i))))) (succeeded sched)"
    unfolding e2 by (rule filter_isFire)
  show ?thesis
    unfolding p1 f1 p2 f2 by (simp add: taskPath_def statusPatch_def importancePatch_def)
qed

theorem toggle_requests_witness:
  "filter isPatch (events (changeCompletedState ex_gw [ex_node1, ex_node2]
       [(1, Fulfilled), (0, Rejected)])) =
     [Patch (Client 0) ''/me/todo/lists/L1/tasks/T1'' (StatusPatch ''completed''),
      Patch (Client 0) ''/me/todo/lists/L1/tasks/T2'' (StatusPatch ''notStarted'')]
 \<and> filter isFire (events (changeCompletedState ex_gw [ex_node1, ex_node2]
       [(1, Fulfilled), (0, Rejected)])) =
     [Fire (Some (ListN ex_listNode))]
 \<and> filter isPatch (events (changeImportanceState ex_gw [ex_node1, ex_node2]
       [(1, Fulfilled), (0, Rejected)])) =
     [Patch (Client 0) ''/me/todo/lists/L1/tasks/T1'' (ImportancePatch ''high''),
      Patch (Client 0) ''/me/todo/lists/L1/tasks/T2'' (ImportancePatch ''normal'')]
 \<and> filter isFire (events (changeImportanceState ex_gw [ex_node1, ex_node2]
       [(1, Fulfilled), (0, Rejected)])) =
     [Fire (Some (ListN ex_listNode))]"
  using toggle_requests [of ex_gw "Client 0" "[(1, Fulfilled), (0, Rejected)]"
      "[ex_node1, ex_node2]"]
  by (simp add: ex_defs succeeded_def)

text \<open>
  Claim C6. With a client, and responses that answer every request of the batch exactly
  once, in any order: all patch requests are handed over, in the order of the batch,
  before any response is handled; and whatever the other responses are, each task whose
  own patch is fulfilled has its call fulfilled and the signal for its parent list fired,
  and no call is left in flight.
\<close>

theorem batch_independence:
  assumes "getClient gw = Some c"
    and "sort (map fst sched) = [0..<length nodes]"
    and "(j, Fulfilled) \<in> set sched"
  shows "take (length nodes) (events (changeCompletedState gw nodes sched)) =
           map (\<lambda>n. Patch c (taskPath n) (statusPatch n)) nodes
       \<and> Fire (Some (ListN (parent (nodes ! j)))) \<in>
           set (drop (length nodes) (events (changeCompletedState gw nodes sched)))
       \<and> j \<in> set (fulfilled (changeCompletedState gw nodes sched))
       \<and> inflight (changeCompletedState gw nodes sched) = []
       \<and> take (length nodes) (events (changeImportanceState gw nodes sched)) =
           map (\<lambda>n. Patch c (taskPath n) (importancePatch n)) nodes
       \<and> Fire (Some (ListN (parent (nodes ! j)))) \<in>
           set (drop (length nodes) (events (changeImportanceState gw nodes sched)))
       \<and> j \<in> set (fulfilled (changeImportanceState gw nodes sched))
       \<and> inflight (changeImportanceState gw nodes sched) = []"
proof -
  note d = schedule_complete(1) [OF assms(2)]
  note c = schedule_complete(2) [OF assms(2)]
  from c have r: "\<forall>i \<in> fst ` set sched. i < length nodes" by simp
  from c have s: "{0..<length nodes} \<subseteq> fst ` set sched" by simp
  from assms(3) have j: "j \<in> set (succeeded sched)"
    by (force simp: succeeded_def)
  have ev: "events (foldl settle (startBatch (Some c) pb nodes) sched) =
           map (\<lambda>n. Patch c (taskPath n) (pb n)) nodes @
           map (\<lambda>i. Fire (Some (ListN (parent (nodes ! i))))) (succeeded sched)" for pb
    by (rule events_batch [OF d r])
  have t: "take (length nodes) (events (foldl settle (startBatch (Some c) pb nodes) sched)) =
      map (\<lambda>n. Patch c (taskPath n) (pb n)) nodes" for pb
    unfolding ev by simp
  have f: "Fire (Some (ListN (parent (nodes ! j)))) \<in>
      set (drop (length nodes) (events (foldl settle (startBatch (Some c) pb nodes) sched)))" for pb
    unfolding ev using j by simp
  have u: "j \<in> set (fulfilled (foldl settle (startBatch (Some c) pb nodes) sched))" for pb
    unfolding fulfilled_batch [OF d r] by (rule j)
  have i: "inflight (foldl settle (startBatch (Some c) pb nodes) sched) = []" for pb
    by (rule inflight_batch [OF s])
  show ?thesis
    unfolding changeCompletedState_def changeImportanceState_def assms(1)
    using t f u i by blast
qed

theorem batch_independence_witness:
  "Fire (Some (ListN (parent ex_node1))) \<in>
     set (events (changeCompletedState ex_gw [ex_node1, ex_node2, ex_node3]
            [(0, Fulfilled), (1, Rejected), (2, Fulfilled)]))
 \<and> Fire (Some (ListN (parent ex_node3))) \<in>
     set (events (changeCompletedState ex_gw [ex_node1, ex_node2, ex_node3]
            [(0, Fulfilled), (1, Rejected), (2, Fulfilled)]))
 \<and> fulfilled (changeCompletedState ex_gw [ex_node1, ex_node2, ex_node3]
            [(0, Fulfilled), (1, Rejected), (2, Fulfilled)]) = [0, 2]
 \<and> rejected (changeCompletedState ex_gw [ex_node1, ex_node2, ex_node3]
            [(0, Fulfilled), (1, Rejected), (2, Fulfilled)]) = [1]
 \<and> allState 3 (changeCompletedState ex_gw [ex_node1, ex_node2, ex_node3]
            [(0, Fulfilled), (1, Rejected), (2, Fulfilled)]) = RejectedP"
  using batch_independence [of ex_gw "Client 0" "[(0, Fulfilled), (1, Rejected), (2, Fulfilled)]"
      "[ex_node1, ex_node2, ex_node3]" 0]
    batch_independence [of ex_gw "Client 0" "[(0, Fulfilled), (1, Rejected), (2, Fulfilled)]"
      "[ex_node1, ex_node2, ex_node3]" 2]
  by (simp add: ex_defs changeCompletedState_def startBatch_def allState_def)

text \<open>
  The toggle compares the status with \<^verbatim>\<open>completed\<close> only. A task that is in progress is
  patched to \<^verbatim>\<open>completed\<close> by the first toggle and to \<^verbatim>\<open>notStarted\<close> by the second: its
  status does not come back.
\<close>

theorem toggle_twice_counterexample:
  "status (entity ex_node4) = Some ''inProgress''
 \<and> statusPatch ex_node4 = StatusPatch ''completed''
 \<and> statusPatch (ex_node4\<lparr>entity := applyPatch (statusPatch ex_node4) (entity ex_node4)\<rparr>) =
     StatusPatch ''notStarted''
 \<and> status (applyPatch
       (statusPatch (ex_node4\<lparr>entity := applyPatch (statusPatch ex_node4) (entity ex_node4)\<rparr>))
       (applyPatch (statusPatch ex_node4) (entity ex_node4))) = Some ''notStarted''
 \<and> status (applyPatch
       (statusPatch (ex_node4\<lparr>entity := applyPatch (statusPatch ex_node4) (entity ex_node4)\<rparr>))
       (applyPatch (statusPatch ex_node4) (entity ex_node4))) \<noteq> status (entity ex_node4)"
  by (simp add: ex_node4_def ex_task1_def statusPatch_def)

text \<open>
  Claim C7, amended. For a task whose status is \<^verbatim>\<open>completed\<close> or \<^verbatim>\<open>notStarted\<close>: toggling
  completion, fetching the snapshot that has the patched status, and toggling again
  gives back the task as it was.
\<close>

theorem toggle_twice:
  assumes "status (entity n) = Some ''completed'' \<or> status (entity n) = Some ''notStarted''"
  shows "applyPatch (statusPatch (n\<lparr>entity := applyPatch (statusPatch n) (entity n)\<rparr>))
           (applyPatch (statusPatch n) (entity n)) = entity n"
  using assms by (auto simp: statusPatch_def)

theorem toggle_twice_witness:
  "applyPatch (statusPatch (ex_node1\<lparr>entity := applyPatch (statusPatch ex_node1) (entity ex_node1)\<rparr>))
     (applyPatch (statusPatch ex_node1) (entity ex_node1)) = entity ex_node1
 \<and> status (entity ex_node1) = Some ''notStarted''
 \<and> status (applyPatch (statusPatch ex_node1) (entity ex_node1)) = Some ''completed''
 \<and> applyPatch (statusPatch (ex_node2\<lparr>entity := applyPatch (statusPatch ex_node2) (entity ex_node2)\<rparr>))
     (applyPatch (statusPatch ex_node2) (entity ex_node2)) = entity ex_node2
 \<and> status (entity ex_node2) = Some ''completed''
 \<and> status (applyPatch (statusPatch ex_node2) (entity ex_node2)) = Some ''notStarted''"
  using toggle_twice [of ex_node1] toggle_twice [of ex_node2]
  by (simp add: ex_node1_def ex_node2_def ex_task1_def ex_task2_def statusPatch_def)

text \<open>For every other status, and for none, the second toggle ends at \<^verbatim>\<open>notStarted\<close>.\<close>

lemma second_toggle_other_status:
  assumes "status (entity n) \<noteq> Some ''completed''"
  shows "status (applyPatch (statusPatch (n\<lparr>entity := applyPatch (statusPatch n) (entity n)\<rparr>))
           (applyPatch (statusPatch n) (entity n))) = Some ''notStarted''"
  using assms by (simp add: statusPatch_def)

text \<open>
  Claim C10. The handlers of \<^verbatim>\<open>uncomplete\<close> and \<^verbatim>\<open>complete\<close> are the same function, and
  so are those of \<^verbatim>\<open>unstar\<close> and \<^verbatim>\<open>star\<close>. With a client, \<^verbatim>\<open>uncomplete\<close> on a single task
  that is not completed asks for its status to become \<^verbatim>\<open>completed\<close>, and \<^verbatim>\<open>unstar\<close> on a
  task that is not starred asks for its importance to become \<^verbatim>\<open>high\<close>.
\<close>

theorem uncomplete_is_toggle:
  "executeCommand gw uncomplete = executeCommand gw complete
 \<and> executeCommand gw unstar = executeCommand gw star
 \<and> (getClient gw = Some c \<and> status (entity n) \<noteq> Some ''completed'' \<longrightarrow>
      events (executeCommand gw uncomplete n None []) =
        [Patch c (taskPath n) (StatusPatch ''completed'')])
 \<and> (getClient gw = Some c \<and> importance (entity n) \<noteq> Some ''high'' \<longrightarrow>
      events (executeCommand gw unstar n None []) =
        [Patch c (taskPath n) (ImportancePatch ''high'')])"
  by (auto simp: fun_eq_iff changeCompletedState_def changeImportanceState_def startBatch_def
      statusPatch_def importancePatch_def)

theorem uncomplete_is_toggle_witness:
  "executeCommand ex_gw uncomplete = executeCommand ex_gw complete
 \<and> executeCommand ex_gw unstar = executeCommand ex_gw star
 \<and> status (entity ex_node1) = Some ''notStarted''
 \<and> events (executeCommand ex_gw uncomplete ex_node1 None []) =
      [Patch (Client 0) ''/me/todo/lists/L1/tasks/T1'' (StatusPatch ''completed'')]
 \<and> importance (entity ex_node1) = Some ''normal''
 \<and> events (executeCommand ex_gw unstar ex_node1 None []) =
      [Patch (Client 0) ''/me/todo/lists/L1/tasks/T1'' (ImportancePatch ''high'')]"
  using uncomplete_is_toggle [of ex_gw "Client 0" ex_node1]
  by (simp add: ex_defs taskPath_def)

section \<open>Properties of the tree items\<close>

text \<open>
  Claim C8. For a task node: with no due date (or an empty one) the label is the title
  and nothing is highlighted; with a due date the label is the title, two spaces and the
  due text, so it is longer than the title, and the one highlighted span covers exactly
  the due text.
\<close>

theorem getTreeItem_task_label:
  "(dueDate (entity n) = None \<or> dueDate (entity n) = Some [] \<longrightarrow>
      labelText (item_label (getTreeItem f (TaskN n))) = orEmpty (title (entity n))
    \<and> labelHighlights (item_label (getTreeItem f (TaskN n))) = [])
 \<and> (dueDate (entity n) = Some d \<and> d \<noteq> [] \<longrightarrow>
      labelText (item_label (getTreeItem f (TaskN n))) =
        orEmpty (title (entity n)) @ ''  '' @ '' DUE '' @ f d @ '' ''
    \<and> length (orEmpty (title (entity n))) < length (labelText (item_label (getTreeItem f (TaskN n))))
    \<and> labelHighlights (item_label (getTreeItem f (TaskN n))) =
        [(length (orEmpty (title (entity n))) + 2,
          length (labelText (item_label (getTreeItem f (TaskN n)))))]
    \<and> drop (length (orEmpty (title (entity n))) + 2)
        (labelText (item_label (getTreeItem f (TaskN n)))) = '' DUE '' @ f d @ '' '')"
  by (auto simp: newTreeItem_def Let_def)

theorem getTreeItem_task_label_witness:
  "dueDate (entity ex_node1) = None
 \<and> labelText (item_label (getTreeItem (take 10) (TaskN ex_node1))) = ''Milk''
 \<and> labelHighlights (item_label (getTreeItem (take 10) (TaskN ex_node1))) = []
 \<and> dueDate (entity ex_node2) = Some ''2021-03-01T00:00:00.0000000''
 \<and> labelText (item_label (getTreeItem (take 10) (TaskN ex_node2))) = ''Eggs   DUE 2021-03-01 ''
 \<and> labelHighlights (item_label (getTreeItem (take 10) (TaskN ex_node2))) = [(6, 22)]"
  using getTreeItem_task_label [where n = ex_node1 and f = "take 10"]
    getTreeItem_task_label [where n = ex_node2 and f = "take 10"
      and d = "''2021-03-01T00:00:00.0000000''"]
  by (simp add: ex_defs dueDate_def)

section \<open>Properties of the task details view\<close>

text \<open>With a body, \<open>changeTaskNode\<close> throws nothing, whatever else is absent.\<close>

lemma changeTaskNode_with_body:
  "body (entity n) = Some b \<Longrightarrow> fst (changeTaskNode f w n) = None"
  by (simp add: changeTaskNode_def Let_def split: option.splits)

text \<open>
  Claim C9. The claim is that no consumer of a task faults on an absent optional field.
  The tree item of a task is computed without any failing step, but the details view
  reads \<^verbatim>\<open>taskNode.entity.body.content\<close>: for the task \<open>T1\<close>, which has no body,
  \<open>changeTaskNode\<close> throws a TypeError, after the title has been written and before the
  buttons and the reminder have been updated.
\<close>

theorem changeTaskNode_missing_body:
  "body (entity ex_node1) = None
 \<and> fst (changeTaskNode f ex_webview ex_node1) = Some TypeError
 \<and> title_value (snd (changeTaskNode f ex_webview ex_node1)) = ''Milk''
 \<and> updateButton_hidden (snd (changeTaskNode f ex_webview ex_node1)) = False
 \<and> remindDate_hidden (snd (changeTaskNode f ex_webview ex_node1)) = False"
  by (simp add: changeTaskNode_def ex_defs)

end
